theory Spec2Isabelle
  imports Complex_Main "HOL-Library.Multiset"
begin

section \<open>Public transport delay dashboard: data model\<close>

text \<open>
  The program is one Python script, \<^verbatim>\<open>Public_transport_delay_system.py\<close>. It
  fetches vehicle positions, builds a pandas DataFrame with one row per vehicle, adds a
  random delay, a delay category and the hour of the update, and shows filtered and
  aggregated views of the table.

  A DataFrame is modelled as the list of its rows, in index order. The columns are the
  ones the script creates: the six taken from the feed and the three it derives. Vehicle
  and route ids are strings, as the feed delivers them and as the specification's data
  model has them; the delay is a Python integer.
\<close>

record vehicle_row =
  vehicle_id :: string
  route :: string
  latitude :: real
  longitude :: real
  current_status :: string
  updated_at :: string
  delay_min :: int
  delay_category :: string
  hour :: nat

type_synonym dataframe = "vehicle_row list"

text \<open>Exceptions the modelled statements can raise.\<close>

datatype py_error = KeyError | TypeError | IndexError | ValueError

section \<open>Delay categories\<close>

text \<open>
  \<^verbatim>\<open>categorize_delay(mins)\<close>, lines 45 to 53: an if/elif chain, tested in the
  order written.
\<close>

definition categorize_delay :: "int \<Rightarrow> string" where
  "categorize_delay mins =
     (if mins \<le> 1 then ''On Time''
      else if mins = 2 then ''Low Delay''
      else if mins \<le> 4 then ''Moderate Delay''
      else ''High Delay'')"

text \<open>
  Line 55, \<^verbatim>\<open>df["Delay Category"] = df["Delay (min)"].apply(categorize_delay)\<close>: the
  column is recomputed from the delay column, row by row.
\<close>

definition apply_categorize_delay :: "dataframe \<Rightarrow> dataframe" where
  "apply_categorize_delay df =
     map (\<lambda>r. r\<lparr>delay_category := categorize_delay (delay_min r)\<rparr>) df"

section \<open>Filtering\<close>

text \<open>
  Lines 70 to 76. The three selectors are the strings the sidebar's select boxes return;
  the first option of each box is the literal \<^verbatim>\<open>"None"\<close> (vehicle, route) or
  \<^verbatim>\<open>"All"\<close> (category). Each \<^verbatim>\<open>if\<close> narrows the frame produced by the one
  before it; boolean-mask indexing keeps the rows in their order.
\<close>

definition filtered_df :: "string \<Rightarrow> string \<Rightarrow> string \<Rightarrow> dataframe \<Rightarrow> dataframe" where
  "filtered_df search_vehicle search_route delay_filter df =
     (let f0 = df;
          f1 = (if search_vehicle \<noteq> ''None''
                then filter (\<lambda>r. vehicle_id r = search_vehicle) f0 else f0);
          f2 = (if search_route \<noteq> ''None''
                then filter (\<lambda>r. route r = search_route) f1 else f1);
          f3 = (if delay_filter \<noteq> ''All''
                then filter (\<lambda>r. delay_category r = delay_filter) f2 else f2)
      in f3)"

section \<open>Building the record list from the feed\<close>

text \<open>
  \<^verbatim>\<open>response.json()\<close> is a tree of Python values. A dict is kept as its list of
  key/value pairs, looked up from the front.
\<close>

datatype json =
    JNull
  | JBool bool
  | JNum real
  | JStr string
  | JArr "json list"
  | JObj "(string \<times> json) list"

text \<open>
  \<^verbatim>\<open>v[k]\<close> with a string key: a dict without the key raises KeyError; None, a
  number, a string and a list all raise TypeError.
\<close>

fun getitem :: "json \<Rightarrow> string \<Rightarrow> py_error + json" where
  "getitem (JObj kvs) k = (case map_of kvs k of None \<Rightarrow> Inl KeyError | Some v \<Rightarrow> Inr v)"
| "getitem v k = Inl TypeError"

text \<open>A chain of subscripts \<^verbatim>\<open>v[k1][k2]...\<close>, evaluated left to right.\<close>

fun getpath :: "json \<Rightarrow> string list \<Rightarrow> py_error + json" where
  "getpath v [] = Inr v"
| "getpath v (k # ks) = (case getitem v k of Inl e \<Rightarrow> Inl e | Inr w \<Rightarrow> getpath w ks)"

text \<open>The dict appended to \<^verbatim>\<open>vehicle_info\<close>, one field per key.\<close>

record vehicle_info =
  Vehicle_ID :: json
  Route :: json
  Latitude :: json
  Longitude :: json
  Current_Status :: json
  Updated_At :: json

text \<open>Sequencing of statements that may raise: the first exception ends the evaluation.\<close>

fun and_then :: "py_error + 'a \<Rightarrow> ('a \<Rightarrow> py_error + 'b) \<Rightarrow> py_error + 'b" where
  "and_then (Inl e) f = Inl e"
| "and_then (Inr x) f = f x"

text \<open>
  The dict display of lines 28 to 35: the six values are evaluated in the order written,
  and the first subscript that raises ends the evaluation, before \<^verbatim>\<open>append\<close> is
  called.
\<close>

definition make_entry :: "json \<Rightarrow> py_error + vehicle_info" where
  "make_entry item =
     and_then (getpath item [''id'']) (\<lambda>a.
     and_then (getpath item [''relationships'', ''route'', ''data'', ''id'']) (\<lambda>b.
     and_then (getpath item [''attributes'', ''latitude'']) (\<lambda>c.
     and_then (getpath item [''attributes'', ''longitude'']) (\<lambda>d.
     and_then (getpath item [''attributes'', ''current_status'']) (\<lambda>f.
     and_then (getpath item [''attributes'', ''updated_at'']) (\<lambda>g.
       Inr \<lparr>Vehicle_ID = a, Route = b, Latitude = c, Longitude = d,
            Current_Status = f, Updated_At = g\<rparr>))))))"

text \<open>
  The loop of lines 26 to 37 over the items still to visit, with the list built so far.
  \<^verbatim>\<open>except: pass\<close> catches every exception of the body and goes on to the next
  item.
\<close>

fun loop_items :: "json list \<Rightarrow> vehicle_info list \<Rightarrow> vehicle_info list" where
  "loop_items [] vehicle_info = vehicle_info"
| "loop_items (item # items) vehicle_info =
     (case make_entry item of
        Inr entry \<Rightarrow> loop_items items (vehicle_info @ [entry])
      | Inl e \<Rightarrow> loop_items items vehicle_info)"

definition collect_vehicle_info :: "json list \<Rightarrow> vehicle_info list" where
  "collect_vehicle_info items = loop_items items []"

text \<open>
  What it means for an item to expose a field: following the keys from the item, every
  step finds a dict that has the next key. The value found may be anything, also null.
\<close>

fun has_path :: "json \<Rightarrow> string list \<Rightarrow> bool" where
  "has_path v [] = True"
| "has_path (JObj kvs) (k # ks) =
     (case map_of kvs k of None \<Rightarrow> False | Some w \<Rightarrow> has_path w ks)"
| "has_path v (k # ks) = False"

definition required_fields :: "string list list" where
  "required_fields =
     [[''id''],
      [''relationships'', ''route'', ''data'', ''id''],
      [''attributes'', ''latitude''],
      [''attributes'', ''longitude''],
      [''attributes'', ''current_status''],
      [''attributes'', ''updated_at'']]"

definition missing_required :: "json \<Rightarrow> bool" where
  "missing_required item = (\<exists>p \<in> set required_fields. \<not> has_path item p)"

text \<open>An entry is complete for an item when its six columns are the item's six values.\<close>

definition entry_of :: "json \<Rightarrow> vehicle_info \<Rightarrow> bool" where
  "entry_of item e \<longleftrightarrow>
     getpath item [''id''] = Inr (Vehicle_ID e) \<and>
     getpath item [''relationships'', ''route'', ''data'', ''id''] = Inr (Route e) \<and>
     getpath item [''attributes'', ''latitude''] = Inr (Latitude e) \<and>
     getpath item [''attributes'', ''longitude''] = Inr (Longitude e) \<and>
     getpath item [''attributes'', ''current_status''] = Inr (Current_Status e) \<and>
     getpath item [''attributes'', ''updated_at''] = Inr (Updated_At e)"

text \<open>Feed items used to evaluate the loop.\<close>

definition feed_item :: "string \<Rightarrow> string \<Rightarrow> (string \<times> json) list \<Rightarrow> json" where
  "feed_item v rt attrs =
     JObj [(''id'', JStr v),
           (''attributes'', JObj attrs),
           (''relationships'', JObj [(''route'', JObj [(''data'', JObj [(''id'', JStr rt)])])])]"

definition full_attrs :: "(string \<times> json) list" where
  "full_attrs =
     [(''latitude'', JNum 42), (''longitude'', JNum (-71)),
      (''current_status'', JStr ''STOPPED_AT''), (''updated_at'', JStr ''2024-05-01T08:15:00-04:00'')]"

definition no_latitude_attrs :: "(string \<times> json) list" where
  "no_latitude_attrs =
     [(''longitude'', JNum (-71)),
      (''current_status'', JStr ''STOPPED_AT''), (''updated_at'', JStr ''2024-05-01T08:15:00-04:00'')]"

section \<open>Sorting by delay\<close>

text \<open>
  The script sorts with \<^verbatim>\<open>sort_values("Delay (min)")\<close> and leaves the sorting
  algorithm at the library's default, \<^verbatim>\<open>kind="quicksort"\<close>, which pandas documents
  as not stable (only \<^verbatim>\<open>"mergesort"\<close> and \<^verbatim>\<open>"stable"\<close> are). What the call
  promises is a frame with the same rows, ordered by the column, ascending or descending;
  the order among rows of equal delay belongs to the sorting routine, not to the script.
  The views that sort therefore take the routine as an argument, called with the
  \<^verbatim>\<open>ascending\<close> flag and the frame.
\<close>

type_synonym sorter = "bool \<Rightarrow> dataframe \<Rightarrow> dataframe"

definition delay_ordered :: "bool \<Rightarrow> dataframe \<Rightarrow> bool" where
  "delay_ordered ascending df =
     (if ascending then sorted (map delay_min df) else sorted (rev (map delay_min df)))"

definition sorts_by_delay :: "sorter \<Rightarrow> bool" where
  "sorts_by_delay sort_values \<longleftrightarrow>
     (\<forall>ascending df. mset (sort_values ascending df) = mset df \<and>
                     delay_ordered ascending (sort_values ascending df))"

text \<open>
  The promise at a single call: \<open>sorted_df\<close> is a frame the call may return for
  \<open>df\<close>.
\<close>

definition permitted_result :: "bool \<Rightarrow> dataframe \<Rightarrow> dataframe \<Rightarrow> bool" where
  "permitted_result ascending df sorted_df \<longleftrightarrow>
     mset sorted_df = mset df \<and> delay_ordered ascending sorted_df"

text \<open>
  Two stand-ins for the library's routine, used where a view is evaluated on a concrete
  table; neither is the routine the script runs. \<open>stable_sort_values\<close> keeps the promise
  at every call and leaves rows of equal delay in their order; it is used on tables
  whose decisive rows have different delays, where every routine that keeps the promise
  gives the same answer. \<open>returning sorted_df\<close> stands for one call whose result is
  written out: it hands back that frame.
\<close>

definition stable_sort_values :: sorter where
  "stable_sort_values ascending df =
     (if ascending then sort_key delay_min df else rev (sort_key delay_min (rev df)))"

definition returning :: "dataframe \<Rightarrow> sorter" where
  "returning sorted_df ascending df = sorted_df"

text \<open>\<^verbatim>\<open>.iloc[0]\<close>: the first row, IndexError on an empty frame.\<close>

definition iloc0 :: "'a list \<Rightarrow> py_error + 'a" where
  "iloc0 df = (case df of [] \<Rightarrow> Inl IndexError | r # rest \<Rightarrow> Inr r)"

section \<open>Summary statistics\<close>

text \<open>
  Line 94, the "Most Delayed Vehicle" tile:
  \<^verbatim>\<open>df.sort_values("Delay (min)", ascending=False).iloc[0]["Vehicle ID"]\<close>.
\<close>

definition most_delayed_vehicle :: "sorter \<Rightarrow> dataframe \<Rightarrow> py_error + string" where
  "most_delayed_vehicle sort_values df =
     and_then (iloc0 (sort_values False df)) (\<lambda>row. Inr (vehicle_id row))"

text \<open>
  The rule the specification gives for ties: scanning in fetch order, the first row
  whose delay no other row exceeds (for the best vehicle: undercuts).
\<close>

definition first_max_delay :: "dataframe \<Rightarrow> vehicle_row option" where
  "first_max_delay df = find (\<lambda>r. list_all (\<lambda>r'. delay_min r' \<le> delay_min r) df) df"

definition first_min_delay :: "dataframe \<Rightarrow> vehicle_row option" where
  "first_min_delay df = find (\<lambda>r. list_all (\<lambda>r'. delay_min r \<le> delay_min r') df) df"

section \<open>Per-route comparison\<close>

text \<open>
  Lines 145 to 160. The chart is drawn from the Vehicle ID and delay columns of the
  sorted frame; the two other outcomes are information messages.
\<close>

datatype comparison_view =
    Bar_chart string "(string \<times> int) list"
  | Info string

definition route_comparison :: "sorter \<Rightarrow> dataframe \<Rightarrow> dataframe \<Rightarrow> comparison_view" where
  "route_comparison sort_values filtered df =
     (case filtered of
        [] \<Rightarrow> Info ''Search or select a route to view comparison chart.''
      | first_row # rest \<Rightarrow>
          (let route_to_show = route first_row;
               vehicles_same_route = filter (\<lambda>r. route r = route_to_show) df
           in if length vehicles_same_route > 1
              then (let sorted_df = sort_values False vehicles_same_route
                    in Bar_chart route_to_show
                         (map (\<lambda>r. (vehicle_id r, delay_min r)) sorted_df))
              else Info ''Only one vehicle found for this route.''))"

section \<open>Best time and vehicle\<close>

text \<open>
  Line 174 compares the route ids after \<^verbatim>\<open>str.lower\<close> and \<^verbatim>\<open>str.strip\<close>
  (\<^verbatim>\<open>astype(str)\<close> and \<^verbatim>\<open>str(...)\<close> leave a string as it is). Both are library
  functions on Unicode text; the block takes them as the arguments \<open>str_lower\<close> and
  \<open>str_strip\<close>, so that nothing is assumed of them.
\<close>

definition prediction_route_df ::
  "(string \<Rightarrow> string) \<Rightarrow> (string \<Rightarrow> string) \<Rightarrow> string \<Rightarrow> dataframe \<Rightarrow> dataframe" where
  "prediction_route_df str_lower str_strip ai_route df =
     filter (\<lambda>r. str_strip (str_lower (route r)) = str_strip (str_lower ai_route)) df"

text \<open>
  \<^verbatim>\<open>groupby("Hour")["Delay (min)"].mean()\<close>: one entry per hour that occurs, hours
  ascending, each with the mean delay of its rows. The mean of a group is the sum of its
  integer delays divided by its size; it is kept exact here.
\<close>

definition mean_delay :: "dataframe \<Rightarrow> real" where
  "mean_delay rows = of_int (sum_list (map delay_min rows)) / of_nat (length rows)"

definition rows_of_hour :: "dataframe \<Rightarrow> nat \<Rightarrow> dataframe" where
  "rows_of_hour df h = filter (\<lambda>r. hour r = h) df"

definition groupby_hour_mean :: "dataframe \<Rightarrow> (nat \<times> real) list" where
  "groupby_hour_mean df =
     map (\<lambda>h. (h, mean_delay (rows_of_hour df h))) (sort (remdups (map hour df)))"

text \<open>
  \<^verbatim>\<open>idxmin()\<close>: the label of the first entry that holds the minimum; ValueError on an
  empty series.
\<close>

fun idxmin_from :: "nat \<times> real \<Rightarrow> (nat \<times> real) list \<Rightarrow> nat" where
  "idxmin_from best [] = fst best"
| "idxmin_from best (entry # rest) =
     idxmin_from (if snd entry < snd best then entry else best) rest"

fun idxmin :: "(nat \<times> real) list \<Rightarrow> py_error + nat" where
  "idxmin [] = Inl ValueError"
| "idxmin (entry # rest) = Inr (idxmin_from entry rest)"

text \<open>
  Lines 173 to 185: nothing is run for an empty selection, a message is shown when no
  row matches, and otherwise the best hour, the best vehicle and its delay are shown.
\<close>

datatype 'a shown = Not_run | No_data | Shown 'a

definition ai_prediction ::
  "(string \<Rightarrow> string) \<Rightarrow> (string \<Rightarrow> string) \<Rightarrow> sorter \<Rightarrow> string \<Rightarrow> dataframe
     \<Rightarrow> py_error + (nat \<times> string \<times> int) shown" where
  "ai_prediction str_lower str_strip sort_values ai_route df =
     (if ai_route \<noteq> [] then
        (let route_df = prediction_route_df str_lower str_strip ai_route df
         in if route_df \<noteq> [] then
              and_then (idxmin (groupby_hour_mean route_df)) (\<lambda>best_hour.
              and_then (iloc0 (sort_values True route_df)) (\<lambda>best_vehicle_row.
                Inr (Shown (best_hour, vehicle_id best_vehicle_row,
                            delay_min best_vehicle_row))))
            else Inr No_data)
      else Inr Not_run)"

text \<open>Rows used to evaluate the definitions on concrete tables.\<close>

definition mk_row :: "string \<Rightarrow> string \<Rightarrow> int \<Rightarrow> nat \<Rightarrow> vehicle_row" where
  "mk_row v rt d h =
     \<lparr>vehicle_id = v, route = rt, latitude = 0, longitude = 0,
      current_status = ''IN_TRANSIT_TO'', updated_at = [],
      delay_min = d, delay_category = categorize_delay d, hour = h\<rparr>"

text \<open>
  What \<^verbatim>\<open>str.lower\<close> and \<^verbatim>\<open>str.strip\<close> do to ASCII text: the letters A to Z
  are lowered, and the ASCII characters Python counts as whitespace are removed from both
  ends. They are used to evaluate the prediction block on tables whose route ids are
  ASCII.
\<close>

definition ascii_lower_char :: "char \<Rightarrow> char" where
  "ascii_lower_char c =
     (case map_of (zip ''ABCDEFGHIJKLMNOPQRSTUVWXYZ'' ''abcdefghijklmnopqrstuvwxyz'') c of
        Some l \<Rightarrow> l
      | None \<Rightarrow> c)"

definition ascii_lower :: "string \<Rightarrow> string" where
  "ascii_lower s = map ascii_lower_char s"

definition ascii_space :: "char \<Rightarrow> bool" where
  "ascii_space c \<longleftrightarrow>
     c \<in> set [CHR '' '', CHR 0x09, CHR 0x0A, CHR 0x0B, CHR 0x0C, CHR 0x0D,
              CHR 0x1C, CHR 0x1D, CHR 0x1E, CHR 0x1F]"

definition ascii_strip :: "string \<Rightarrow> string" where
  "ascii_strip s = rev (dropWhile ascii_space (rev (dropWhile ascii_space s)))"

text \<open>
  Four vehicles of one route with the delays 4, 3, 6, 6: v02 and v03 share the largest
  delay, v02 first in fetch order. The second frame holds the same rows by descending
  delay with v03 ahead of v02.
\<close>

definition tied_max_table :: dataframe where
  "tied_max_table =
     [mk_row ''v00'' ''Red'' 4 8, mk_row ''v01'' ''Red'' 3 8,
      mk_row ''v02'' ''Red'' 6 8, mk_row ''v03'' ''Red'' 6 8]"

definition tied_max_sorted :: dataframe where
  "tied_max_sorted =
     [mk_row ''v03'' ''Red'' 6 8, mk_row ''v02'' ''Red'' 6 8,
      mk_row ''v00'' ''Red'' 4 8, mk_row ''v01'' ''Red'' 3 8]"

text \<open>
  Four vehicles of one route with the delays 4, 4, 0, 0: v02 and v03 share the smallest
  delay, v02 first in fetch order. The two other frames are the two orders of the same
  rows by ascending delay that have v03 ahead of v02.
\<close>

definition tied_min_table :: dataframe where
  "tied_min_table =
     [mk_row ''v00'' ''Red'' 4 8, mk_row ''v01'' ''Red'' 4 8,
      mk_row ''v02'' ''Red'' 0 8, mk_row ''v03'' ''Red'' 0 8]"

definition tied_min_sorted :: dataframe where
  "tied_min_sorted =
     [mk_row ''v03'' ''Red'' 0 8, mk_row ''v02'' ''Red'' 0 8,
      mk_row ''v00'' ''Red'' 4 8, mk_row ''v01'' ''Red'' 4 8]"

definition tied_min_sorted' :: dataframe where
  "tied_min_sorted' =
     [mk_row ''v03'' ''Red'' 0 8, mk_row ''v02'' ''Red'' 0 8,
      mk_row ''v01'' ''Red'' 4 8, mk_row ''v00'' ''Red'' 4 8]"

text \<open>
  Vehicles whose route id is the empty string, which the select box of line 171 then
  offers (first, in sorted order).
\<close>

definition unnamed_route_table :: dataframe where
  "unnamed_route_table = [mk_row ''v00'' [] 4 8, mk_row ''v01'' [] 1 9]"

section \<open>Properties of the delay categories\<close>

text \<open>
  C1. For every integer delay from 0 to 6 the category follows the threshold table:
  at most 1 gives "On Time", exactly 2 gives "Low Delay", 3 or 4 gives "Moderate Delay",
  5 and above gives "High Delay".
\<close>

theorem categorize_delay_table:
  assumes "0 \<le> mins" and "mins \<le> 6"
  shows "(mins \<le> 1 \<longrightarrow> categorize_delay mins = ''On Time'') \<and>
         (mins = 2 \<longrightarrow> categorize_delay mins = ''Low Delay'') \<and>
         (3 \<le> mins \<and> mins \<le> 4 \<longrightarrow> categorize_delay mins = ''Moderate Delay'') \<and>
         (5 \<le> mins \<longrightarrow> categorize_delay mins = ''High Delay'')"
  by (simp add: categorize_delay_def)

theorem categorize_delay_table_witness:
  "map categorize_delay [0, 1, 2, 3, 4, 5, 6] =
     [''On Time'', ''On Time'', ''Low Delay'', ''Moderate Delay'', ''Moderate Delay'',
      ''High Delay'', ''High Delay'']"
  using categorize_delay_table [of 0] categorize_delay_table [of 1]
    categorize_delay_table [of 2] categorize_delay_table [of 3]
    categorize_delay_table [of 4] categorize_delay_table [of 5]
    categorize_delay_table [of 6]
  by simp

lemma apply_categorize_delay_column:
  "map delay_category (apply_categorize_delay df) = map (categorize_delay \<circ> delay_min) df"
  by (simp add: apply_categorize_delay_def)

section \<open>Properties of filtering\<close>

lemma filtered_df_filter:
  "filtered_df sv sr dfl df =
     filter (\<lambda>r. (sv = ''None'' \<or> vehicle_id r = sv) \<and>
                 (sr = ''None'' \<or> route r = sr) \<and>
                 (dfl = ''All'' \<or> delay_category r = dfl)) df"
  by (auto simp add: filtered_df_def Let_def intro: filter_cong)

text \<open>
  C2. A selector is active when it differs from its box's first option. Filtering
  returns exactly the rows that match every active selector, in their original order;
  an inactive selector imposes nothing, and with no active selector the table is
  returned unchanged.
\<close>

theorem filtered_df_conjunction:
  "filtered_df search_vehicle search_route delay_filter df =
     filter (\<lambda>r. (search_vehicle \<noteq> ''None'' \<longrightarrow> vehicle_id r = search_vehicle) \<and>
                 (search_route \<noteq> ''None'' \<longrightarrow> route r = search_route) \<and>
                 (delay_filter \<noteq> ''All'' \<longrightarrow> delay_category r = delay_filter)) df
   \<and> filtered_df ''None'' ''None'' ''All'' df = df"
proof
  show "filtered_df search_vehicle search_route delay_filter df =
     filter (\<lambda>r. (search_vehicle \<noteq> ''None'' \<longrightarrow> vehicle_id r = search_vehicle) \<and>
                 (search_route \<noteq> ''None'' \<longrightarrow> route r = search_route) \<and>
                 (delay_filter \<noteq> ''All'' \<longrightarrow> delay_category r = delay_filter)) df"
    unfolding filtered_df_filter by (rule filter_cong) auto
  show "filtered_df ''None'' ''None'' ''All'' df = df"
    by (simp add: filtered_df_def)
qed

theorem filtered_df_conjunction_witness:
  "filtered_df ''y1731'' ''None'' ''High Delay''
     [mk_row ''y1731'' ''Red'' 5 8, mk_row ''y1800'' ''Red'' 6 8, mk_row ''y1731'' ''1'' 0 9]
   = [mk_row ''y1731'' ''Red'' 5 8]
   \<and> filtered_df ''None'' ''None'' ''All''
       [mk_row ''y1731'' ''Red'' 5 8, mk_row ''y1800'' ''Red'' 6 8]
     = [mk_row ''y1731'' ''Red'' 5 8, mk_row ''y1800'' ''Red'' 6 8]"
  using filtered_df_conjunction [of "''y1731''" "''None''" "''High Delay''"
      "[mk_row ''y1731'' ''Red'' 5 8, mk_row ''y1800'' ''Red'' 6 8, mk_row ''y1731'' ''1'' 0 9]"]
    filtered_df_conjunction [of "''None''" "''None''" "''All''"
      "[mk_row ''y1731'' ''Red'' 5 8, mk_row ''y1800'' ''Red'' 6 8]"]
  by (simp add: mk_row_def categorize_delay_def)

text \<open>
  C9. Filtering is idempotent: filtering the filtered table again with the same three
  selectors gives the same table.
\<close>

theorem filtered_df_idempotent:
  "filtered_df search_vehicle search_route delay_filter
     (filtered_df search_vehicle search_route delay_filter df)
   = filtered_df search_vehicle search_route delay_filter df"
  by (simp add: filtered_df_filter)

section \<open>Properties of the feed loop\<close>

lemma has_path_getpath: "has_path v ks \<longleftrightarrow> (\<exists>w. getpath v ks = Inr w)"
proof (induction v ks rule: has_path.induct)
  case (1 v)
  then show ?case by simp
next
  case (2 kvs k ks)
  then show ?case by (cases "map_of kvs k") auto
qed auto

lemma and_then_Inr_iff: "and_then m f = Inr y \<longleftrightarrow> (\<exists>x. m = Inr x \<and> f x = Inr y)"
  by (cases m) auto

lemma and_then_Inl: "m = Inl e \<Longrightarrow> and_then m f = Inl e"
  by simp

lemma make_entry_Inr_iff: "make_entry item = Inr e \<longleftrightarrow> entry_of item e"
  unfolding make_entry_def entry_of_def
  by (cases e) (auto simp: and_then_Inr_iff)

lemma make_entry_missing:
  assumes "missing_required item"
  shows "\<exists>err. make_entry item = Inl err"
proof -
  from assms obtain p where p: "p \<in> set required_fields" "\<not> has_path item p"
    unfolding missing_required_def by blast
  from p(2) have "\<forall>w. getpath item p \<noteq> Inr w"
    by (simp add: has_path_getpath)
  then obtain err where "getpath item p = Inl err"
    by (cases "getpath item p") auto
  with p(1) show ?thesis
    unfolding required_fields_def make_entry_def
    by (cases "getpath item [''id'']";
        cases "getpath item [''relationships'', ''route'', ''data'', ''id'']";
        cases "getpath item [''attributes'', ''latitude'']";
        cases "getpath item [''attributes'', ''longitude'']";
        cases "getpath item [''attributes'', ''current_status'']";
        cases "getpath item [''attributes'', ''updated_at'']") auto
qed

lemma make_entry_present:
  assumes "\<not> missing_required item"
  shows "\<exists>e. make_entry item = Inr e"
proof -
  from assms have "\<forall>p \<in> set required_fields. \<exists>w. getpath item p = Inr w"
    unfolding missing_required_def by (simp add: has_path_getpath)
  then show ?thesis
    unfolding required_fields_def make_entry_def
    by auto
qed

lemma loop_items_acc: "loop_items items acc = acc @ loop_items items []"
proof (induction items arbitrary: acc)
  case Nil
  then show ?case by simp
next
  case (Cons item items)
  show ?case
  proof (cases "make_entry item")
    case (Inl e)
    then show ?thesis using Cons.IH [of acc] by simp
  next
    case (Inr entry)
    then show ?thesis
      using Cons.IH [of "acc @ [entry]"] Cons.IH [of "[entry]"] by simp
  qed
qed

lemma collect_Cons:
  "collect_vehicle_info (item # items) =
     (case make_entry item of Inr e \<Rightarrow> [e] | Inl err \<Rightarrow> []) @ collect_vehicle_info items"
  unfolding collect_vehicle_info_def
  using loop_items_acc [of items "[e]" for e]
  by (auto split: sum.splits)

lemma collect_append:
  "collect_vehicle_info (xs @ ys) = collect_vehicle_info xs @ collect_vehicle_info ys"
proof (induction xs)
  case Nil
  then show ?case by (simp add: collect_vehicle_info_def)
next
  case (Cons x xs)
  then show ?case by (simp add: collect_Cons)
qed

lemma collect_Nil: "collect_vehicle_info [] = []"
  by (simp add: collect_vehicle_info_def)

lemma collect_entries:
  "e \<in> set (collect_vehicle_info items) \<Longrightarrow> \<exists>item \<in> set items. make_entry item = Inr e"
proof (induction items)
  case Nil
  then show ?case by (simp add: collect_Nil)
next
  case (Cons x xs)
  then show ?case by (auto simp: collect_Cons split: sum.splits)
qed

text \<open>
  C3. An item of the fetched list that lacks a required field (id, route relationship
  id, latitude, longitude, status, update timestamp) is left out of the record list:
  the list is the one the other items give, those before and those after the item alike,
  and every entry in it carries all six values of an item that has them all.
\<close>

theorem missing_field_item_skipped:
  assumes "missing_required item"
  shows "collect_vehicle_info (before @ item # after) =
           collect_vehicle_info before @ collect_vehicle_info after
         \<and> collect_vehicle_info (before @ item # after) = collect_vehicle_info (before @ after)
         \<and> (\<forall>e \<in> set (collect_vehicle_info (before @ item # after)).
              \<exists>it \<in> set (before @ after). \<not> missing_required it \<and> entry_of it e)"
proof -
  from make_entry_missing [OF assms] obtain err where err: "make_entry item = Inl err" ..
  have skip: "collect_vehicle_info (item # after) = collect_vehicle_info after"
    by (simp add: collect_Cons err)
  have eq: "collect_vehicle_info (before @ item # after) =
           collect_vehicle_info before @ collect_vehicle_info after"
    by (simp add: collect_append skip)
  have eq2: "collect_vehicle_info (before @ item # after) = collect_vehicle_info (before @ after)"
    by (simp add: collect_append skip)
  have "\<exists>it \<in> set (before @ after). \<not> missing_required it \<and> entry_of it e"
    if "e \<in> set (collect_vehicle_info (before @ item # after))" for e
  proof -
    from that eq2 have "e \<in> set (collect_vehicle_info (before @ after))" by simp
    from collect_entries [OF this] obtain it
      where it: "it \<in> set (before @ after)" "make_entry it = Inr e" by blast
    have "\<not> missing_required it"
      using make_entry_missing [of it] it(2) by auto
    with it show ?thesis by (auto simp: make_entry_Inr_iff)
  qed
  with eq eq2 show ?thesis by blast
qed

lemma no_latitude_is_missing: "missing_required (feed_item ''y2'' ''1'' no_latitude_attrs)"
  by (simp add: missing_required_def required_fields_def feed_item_def no_latitude_attrs_def)

theorem missing_field_item_skipped_witness:
  "missing_required (feed_item ''y2'' ''1'' no_latitude_attrs) \<and>
   map Vehicle_ID (collect_vehicle_info
     [feed_item ''y1'' ''Red'' full_attrs, feed_item ''y2'' ''1'' no_latitude_attrs,
      feed_item ''y3'' ''1'' full_attrs]) = [JStr ''y1'', JStr ''y3'']"
  using missing_field_item_skipped [OF no_latitude_is_missing,
      of "[feed_item ''y1'' ''Red'' full_attrs]" "[feed_item ''y3'' ''1'' full_attrs]"]
    no_latitude_is_missing
  by (simp add: collect_vehicle_info_def make_entry_def feed_item_def full_attrs_def)

text \<open>
  A field that is present with the value null is not lacking in this sense: the
  subscript succeeds and the entry is appended with the null in that column.
\<close>

lemma null_latitude_is_kept:
  "map Latitude (collect_vehicle_info
     [feed_item ''y4'' ''Red'' ((''latitude'', JNull) # no_latitude_attrs)]) = [JNull]"
  by (simp add: collect_vehicle_info_def make_entry_def feed_item_def no_latitude_attrs_def)

section \<open>Properties of sorting by delay\<close>

lemma sorts_by_delay_mset: "sorts_by_delay srt \<Longrightarrow> mset (srt asc df) = mset df"
  by (simp add: sorts_by_delay_def)

lemma sorts_by_delay_ordered: "sorts_by_delay srt \<Longrightarrow> delay_ordered asc (srt asc df)"
  by (simp add: sorts_by_delay_def)

lemma sorts_by_delay_permitted: "sorts_by_delay srt \<Longrightarrow> permitted_result asc df (srt asc df)"
  by (simp add: sorts_by_delay_def permitted_result_def)

lemma stable_sort_values_sorts: "sorts_by_delay stable_sort_values"
  by (simp add: sorts_by_delay_def stable_sort_values_def delay_ordered_def rev_map [symmetric])

lemma permitted_result_set: "permitted_result asc df sorted_df \<Longrightarrow> set sorted_df = set df"
  unfolding permitted_result_def by (metis mset_eq_setD)

lemma permitted_result_nonempty:
  assumes "permitted_result asc df sorted_df" and "df \<noteq> []"
  obtains r rest where "sorted_df = r # rest"
proof -
  have "length sorted_df = length df"
    using assms(1) unfolding permitted_result_def by (metis size_mset)
  with assms(2) have "sorted_df \<noteq> []" by auto
  then show ?thesis using that by (cases sorted_df) auto
qed

lemma descending_head_is_max:
  assumes "permitted_result False df (r # rest)"
  shows "r \<in> set df \<and> (\<forall>r' \<in> set df. delay_min r' \<le> delay_min r)"
proof -
  have s: "set df = set (r # rest)"
    using permitted_result_set [OF assms] by simp
  have "sorted (rev (map delay_min (r # rest)))"
    using assms by (simp add: permitted_result_def delay_ordered_def)
  then have "\<forall>x \<in> set rest. delay_min x \<le> delay_min r"
    by (auto simp: sorted_append)
  with s show ?thesis by auto
qed

lemma ascending_head_is_min:
  assumes "permitted_result True df (r # rest)"
  shows "r \<in> set df \<and> (\<forall>r' \<in> set df. delay_min r \<le> delay_min r')"
proof -
  have s: "set df = set (r # rest)"
    using permitted_result_set [OF assms] by simp
  have "sorted (map delay_min (r # rest))"
    using assms by (simp add: permitted_result_def delay_ordered_def)
  then have "\<forall>x \<in> set rest. delay_min r \<le> delay_min x"
    by auto
  with s show ?thesis by auto
qed

section \<open>The most delayed vehicle\<close>

text \<open>
  C5, as the code has it. For a non-empty table, whenever the sort of line 94 returns a
  frame it may return (the same rows, by descending delay), the tile shows the id of a
  row of the table whose delay no row exceeds. Which of several such rows it shows is
  the sort's choice.
\<close>

theorem most_delayed_vehicle_has_max_delay:
  assumes "df \<noteq> []" and "permitted_result False df (sort_values False df)"
  shows "\<exists>r \<in> set df. most_delayed_vehicle sort_values df = Inr (vehicle_id r) \<and>
           (\<forall>r' \<in> set df. delay_min r' \<le> delay_min r)"
proof -
  obtain r rest where S: "sort_values False df = r # rest"
    using permitted_result_nonempty [OF assms(2,1)] by blast
  from descending_head_is_max [OF assms(2) [unfolded S]]
  show ?thesis
    by (auto simp: most_delayed_vehicle_def iloc0_def S)
qed

theorem most_delayed_vehicle_has_max_delay_witness:
  "permitted_result False
     [mk_row ''a'' ''A'' 3 8, mk_row ''b'' ''A'' 5 8, mk_row ''c'' ''B'' 4 9]
     (stable_sort_values False
        [mk_row ''a'' ''A'' 3 8, mk_row ''b'' ''A'' 5 8, mk_row ''c'' ''B'' 4 9]) \<and>
   most_delayed_vehicle stable_sort_values
     [mk_row ''a'' ''A'' 3 8, mk_row ''b'' ''A'' 5 8, mk_row ''c'' ''B'' 4 9] = Inr ''b''"
proof -
  let ?df = "[mk_row ''a'' ''A'' 3 8, mk_row ''b'' ''A'' 5 8, mk_row ''c'' ''B'' 4 9]"
  have p: "permitted_result False ?df (stable_sort_values False ?df)"
    by (rule sorts_by_delay_permitted [OF stable_sort_values_sorts])
  have ne: "?df \<noteq> []" by simp
  have val: "most_delayed_vehicle stable_sort_values ?df = Inr ''b''"
    by (simp add: most_delayed_vehicle_def stable_sort_values_def iloc0_def mk_row_def)
  from most_delayed_vehicle_has_max_delay
        [where df = "?df" and sort_values = stable_sort_values, OF ne p]
  have "\<exists>r :: vehicle_row. most_delayed_vehicle stable_sort_values ?df = Inr (vehicle_id r)"
    by (elim bexE conjE) (rule exI, assumption)
  with p val show ?thesis by (intro conjI) assumption+
qed

text \<open>
  The rule "the first such row in fetch order wins" does not follow. For the table with
  the delays 4, 3, 6, 6 the frame with v03 ahead of v02 is one the descending sort may
  return, and with it the tile shows v03, although v02 comes first among the most
  delayed.
\<close>

theorem most_delayed_vehicle_tie_counterexample:
  "permitted_result False tied_max_table (returning tied_max_sorted False tied_max_table) \<and>
   most_delayed_vehicle (returning tied_max_sorted) tied_max_table = Inr ''v03'' \<and>
   map_option vehicle_id (first_max_delay tied_max_table) = Some ''v02''"
proof (intro conjI)
  show "permitted_result False tied_max_table (returning tied_max_sorted False tied_max_table)"
    by (simp add: permitted_result_def delay_ordered_def returning_def tied_max_table_def
        tied_max_sorted_def mk_row_def)
  show "most_delayed_vehicle (returning tied_max_sorted) tied_max_table = Inr ''v03''"
    by (simp add: most_delayed_vehicle_def returning_def iloc0_def tied_max_sorted_def
        mk_row_def)
  show "map_option vehicle_id (first_max_delay tied_max_table) = Some ''v02''"
    by (simp add: first_max_delay_def tied_max_table_def mk_row_def)
qed

section \<open>Properties of the per-route comparison\<close>

lemma route_comparison_empty:
  "route_comparison sort_values [] df = Info ''Search or select a route to view comparison chart.''"
  by (simp add: route_comparison_def)

text \<open>
  C8. When the filtered table is not empty, the comparison uses the route of its first
  row and all rows of the full table on that route. With fewer than two such rows the
  message "Only one vehicle found for this route." is shown and no chart; otherwise the
  chart shows exactly those rows, ordered by delay, largest first.
\<close>

theorem route_comparison_view:
  assumes "sorts_by_delay sort_values"
    and "filtered = first_row # rest"
    and "same_route = filter (\<lambda>r. route r = route first_row) df"
  shows "(length same_route < 2 \<longrightarrow>
            route_comparison sort_values filtered df =
              Info ''Only one vehicle found for this route.'')
       \<and> (2 \<le> length same_route \<longrightarrow>
            (\<exists>sorted_df.
               route_comparison sort_values filtered df =
                 Bar_chart (route first_row) (map (\<lambda>r. (vehicle_id r, delay_min r)) sorted_df) \<and>
               mset sorted_df = mset same_route \<and>
               sorted (rev (map delay_min sorted_df))))"
proof (intro conjI impI)
  assume "length same_route < 2"
  then show "route_comparison sort_values filtered df =
              Info ''Only one vehicle found for this route.''"
    using assms(2,3) by (simp add: route_comparison_def Let_def)
next
  assume two: "2 \<le> length same_route"
  let ?s = "sort_values False same_route"
  have "route_comparison sort_values filtered df =
          Bar_chart (route first_row) (map (\<lambda>r. (vehicle_id r, delay_min r)) ?s)"
    using two assms(2,3) by (simp add: route_comparison_def Let_def)
  moreover have "mset ?s = mset same_route"
    by (rule sorts_by_delay_mset [OF assms(1)])
  moreover have "sorted (rev (map delay_min ?s))"
    using sorts_by_delay_ordered [OF assms(1), of False same_route]
    by (simp add: delay_ordered_def)
  ultimately show "\<exists>sorted_df.
               route_comparison sort_values filtered df =
                 Bar_chart (route first_row) (map (\<lambda>r. (vehicle_id r, delay_min r)) sorted_df) \<and>
               mset sorted_df = mset same_route \<and>
               sorted (rev (map delay_min sorted_df))"
    by blast
qed

theorem route_comparison_view_witness:
  "route_comparison stable_sort_values [mk_row ''a'' ''A'' 3 8]
       [mk_row ''a'' ''A'' 3 8, mk_row ''c'' ''B'' 6 8, mk_row ''b'' ''A'' 5 9]
     = Bar_chart ''A'' [(''b'', 5), (''a'', 3)]
   \<and> route_comparison stable_sort_values [mk_row ''a'' ''A'' 3 8]
       [mk_row ''a'' ''A'' 3 8, mk_row ''c'' ''B'' 6 8]
     = Info ''Only one vehicle found for this route.''"
  using route_comparison_view [OF stable_sort_values_sorts, of "[mk_row ''a'' ''A'' 3 8]"
      "mk_row ''a'' ''A'' 3 8" "[]" _ "[mk_row ''a'' ''A'' 3 8, mk_row ''c'' ''B'' 6 8, mk_row ''b'' ''A'' 5 9]", OF refl refl]
    route_comparison_view [OF stable_sort_values_sorts, of "[mk_row ''a'' ''A'' 3 8]"
      "mk_row ''a'' ''A'' 3 8" "[]" _ "[mk_row ''a'' ''A'' 3 8, mk_row ''c'' ''B'' 6 8]", OF refl refl]
  by (simp add: route_comparison_def stable_sort_values_def mk_row_def)

section \<open>Properties of the best hour and the best vehicle\<close>

lemma idxmin_from_least:
  assumes "sorted_wrt (<) (map fst (best # rest))"
  shows "\<exists>v. (idxmin_from best rest, v) \<in> set (best # rest) \<and>
           (\<forall>k' v'. (k', v') \<in> set (best # rest) \<longrightarrow>
              v \<le> v' \<and> (v' = v \<longrightarrow> idxmin_from best rest \<le> k'))"
  using assms
proof (induction rest arbitrary: best)
  case Nil
  then show ?case by (cases best) auto
next
  case (Cons entry rest)
  let ?b = "if snd entry < snd best then entry else best"
  have sorted': "sorted_wrt (<) (map fst (?b # rest))"
    using Cons.prems by auto
  from Cons.IH [OF sorted'] obtain v
    where v_in: "(idxmin_from ?b rest, v) \<in> set (?b # rest)"
      and v_min: "\<forall>k' v'. (k', v') \<in> set (?b # rest) \<longrightarrow>
                    v \<le> v' \<and> (v' = v \<longrightarrow> idxmin_from ?b rest \<le> k')"
    by blast
  have res: "idxmin_from best (entry # rest) = idxmin_from ?b rest" by simp
  have lt: "fst best < fst entry" using Cons.prems by simp
  have b_in: "(fst ?b, snd ?b) \<in> set (?b # rest)" by simp
  have vb: "v \<le> snd ?b" using v_min b_in by blast
  have tie_b: "snd ?b = v \<longrightarrow> idxmin_from ?b rest \<le> fst ?b" using v_min b_in by blast
  have in': "(idxmin_from ?b rest, v) \<in> set (best # entry # rest)"
    using v_in by (auto split: if_splits)
  have "v \<le> v' \<and> (v' = v \<longrightarrow> idxmin_from ?b rest \<le> k')"
    if kv: "(k', v') \<in> set (best # entry # rest)" for k' v'
  proof -
    show ?thesis
    proof (cases "(k', v') \<in> set (?b # rest)")
      case True
      then show ?thesis using v_min by blast
    next
      case False
      show ?thesis
      proof (cases "snd entry < snd best")
        case True
        with False kv have "(k', v') = best" by auto
        with True vb show ?thesis by auto
      next
        case nlt: False
        with False kv have "(k', v') = entry" by auto
        with nlt vb tie_b lt show ?thesis by auto
      qed
    qed
  qed
  then have "\<forall>k' v'. (k', v') \<in> set (best # entry # rest) \<longrightarrow>
               v \<le> v' \<and> (v' = v \<longrightarrow> idxmin_from ?b rest \<le> k')"
    by blast
  with in' show ?case unfolding res by blast
qed

lemma groupby_hour_mean_keys:
  "map fst (groupby_hour_mean df) = sort (remdups (map hour df))"
  by (simp add: groupby_hour_mean_def comp_def)

lemma groupby_hour_mean_sorted: "sorted_wrt (<) (map fst (groupby_hour_mean df))"
  by (simp add: groupby_hour_mean_keys strict_sorted_iff)

lemma groupby_hour_mean_set:
  "set (groupby_hour_mean df) = (\<lambda>h. (h, mean_delay (rows_of_hour df h))) ` hour ` set df"
  by (simp add: groupby_hour_mean_def)

lemma groupby_hour_mean_nonempty:
  assumes "df \<noteq> []"
  shows "groupby_hour_mean df \<noteq> []"
proof
  assume "groupby_hour_mean df = []"
  then have "set (groupby_hour_mean df) = {}" by simp
  then have "set df = {}" unfolding groupby_hour_mean_set by simp
  with assms show False by simp
qed


lemma idxmin_groupby:
  assumes "df \<noteq> []"
  shows "\<exists>best_hour. idxmin (groupby_hour_mean df) = Inr best_hour \<and>
           best_hour \<in> hour ` set df \<and>
           (\<forall>h \<in> hour ` set df.
              mean_delay (rows_of_hour df best_hour) \<le> mean_delay (rows_of_hour df h) \<and>
              (mean_delay (rows_of_hour df h) = mean_delay (rows_of_hour df best_hour)
                 \<longrightarrow> best_hour \<le> h))"
proof -
  obtain entry rest where G: "groupby_hour_mean df = entry # rest"
    using groupby_hour_mean_nonempty [OF assms] by (cases "groupby_hour_mean df") auto
  let ?k = "idxmin_from entry rest"
  have "sorted_wrt (<) (map fst (entry # rest))"
    using groupby_hour_mean_sorted [of df] G by simp
  from idxmin_from_least [OF this] obtain v
    where v_in: "(?k, v) \<in> set (entry # rest)"
      and v_min: "\<forall>k' v'. (k', v') \<in> set (entry # rest) \<longrightarrow>
                    v \<le> v' \<and> (v' = v \<longrightarrow> ?k \<le> k')"
    by blast
  have S: "set (entry # rest) = (\<lambda>h. (h, mean_delay (rows_of_hour df h))) ` hour ` set df"
    using groupby_hour_mean_set [of df] G by simp
  from v_in have k_in: "?k \<in> hour ` set df" and v_eq: "v = mean_delay (rows_of_hour df ?k)"
    unfolding S by auto
  have "mean_delay (rows_of_hour df ?k) \<le> mean_delay (rows_of_hour df h) \<and>
        (mean_delay (rows_of_hour df h) = mean_delay (rows_of_hour df ?k) \<longrightarrow> ?k \<le> h)"
    if "h \<in> hour ` set df" for h
  proof -
    from that have "(h, mean_delay (rows_of_hour df h)) \<in> set (entry # rest)"
      unfolding S by blast
    with v_min show ?thesis unfolding v_eq by blast
  qed
  with k_in show ?thesis by (simp add: G)
qed

text \<open>
  C7, as the code has it. When the selected route id is not the empty string (the guard
  of line 173) and some row matches it after lowering and stripping both route ids, the
  hour shown is an hour of the matching rows whose mean delay (the sum of the rows'
  delays over their number) no other hour's mean undercuts, and among the hours with
  that mean it is the smallest.
\<close>

theorem best_hour_minimises_mean_delay:
  assumes "ai_route \<noteq> []"
    and "route_df =
           filter (\<lambda>r. str_strip (str_lower (route r)) = str_strip (str_lower ai_route)) df"
    and "route_df \<noteq> []"
    and "permitted_result True route_df (sort_values True route_df)"
    and "mean = (\<lambda>h. real_of_int (sum_list (map delay_min (filter (\<lambda>r. hour r = h) route_df)))
                      / real (length (filter (\<lambda>r. hour r = h) route_df)))"
  shows "\<exists>best_hour v d.
           ai_prediction str_lower str_strip sort_values ai_route df =
             Inr (Shown (best_hour, v, d)) \<and>
           best_hour \<in> hour ` set route_df \<and>
           (\<forall>h \<in> hour ` set route_df.
              mean best_hour \<le> mean h \<and> (mean h = mean best_hour \<longrightarrow> best_hour \<le> h))"
proof -
  have m: "mean h = mean_delay (rows_of_hour route_df h)" for h
    unfolding assms(5) by (simp add: mean_delay_def rows_of_hour_def)
  from idxmin_groupby [OF assms(3)] obtain best_hour
    where bh: "idxmin (groupby_hour_mean route_df) = Inr best_hour"
      and rest: "best_hour \<in> hour ` set route_df"
        "\<forall>h \<in> hour ` set route_df.
              mean best_hour \<le> mean h \<and> (mean h = mean best_hour \<longrightarrow> best_hour \<le> h)"
    unfolding m by blast
  obtain r rs where S: "sort_values True route_df = r # rs"
    using permitted_result_nonempty [OF assms(4,3)] by blast
  have rd: "prediction_route_df str_lower str_strip ai_route df = route_df"
    by (simp add: prediction_route_df_def assms(2))
  have "ai_prediction str_lower str_strip sort_values ai_route df =
          Inr (Shown (best_hour, vehicle_id r, delay_min r))"
    using assms(1,3) unfolding ai_prediction_def rd
    by (simp add: bh S iloc0_def)
  with rest show ?thesis by blast
qed

theorem best_hour_minimises_mean_delay_witness:
  "filter (\<lambda>r. ascii_strip (ascii_lower (route r)) = ascii_strip (ascii_lower '' a ''))
     [mk_row ''p'' ''A'' 5 7, mk_row ''q'' ''B'' 0 6, mk_row ''r'' ''A'' 0 8,
      mk_row ''s'' ''A'' 2 10, mk_row ''t'' ''a '' 2 9, mk_row ''u'' ''A'' 6 8,
      mk_row ''w'' ''A'' 2 9]
   = [mk_row ''p'' ''A'' 5 7, mk_row ''r'' ''A'' 0 8, mk_row ''s'' ''A'' 2 10,
      mk_row ''t'' ''a '' 2 9, mk_row ''u'' ''A'' 6 8, mk_row ''w'' ''A'' 2 9] \<and>
   ai_prediction ascii_lower ascii_strip stable_sort_values '' a ''
     [mk_row ''p'' ''A'' 5 7, mk_row ''q'' ''B'' 0 6, mk_row ''r'' ''A'' 0 8,
      mk_row ''s'' ''A'' 2 10, mk_row ''t'' ''a '' 2 9, mk_row ''u'' ''A'' 6 8,
      mk_row ''w'' ''A'' 2 9]
   = Inr (Shown (9, ''r'', 0))"
proof -
  let ?df = "[mk_row ''p'' ''A'' 5 7, mk_row ''q'' ''B'' 0 6, mk_row ''r'' ''A'' 0 8,
      mk_row ''s'' ''A'' 2 10, mk_row ''t'' ''a '' 2 9, mk_row ''u'' ''A'' 6 8,
      mk_row ''w'' ''A'' 2 9]"
  let ?rd = "filter (\<lambda>r. ascii_strip (ascii_lower (route r)) = ascii_strip (ascii_lower '' a '')) ?df"
  have sel: "'' a '' \<noteq> []" by simp
  have rd: "?rd = [mk_row ''p'' ''A'' 5 7, mk_row ''r'' ''A'' 0 8, mk_row ''s'' ''A'' 2 10,
      mk_row ''t'' ''a '' 2 9, mk_row ''u'' ''A'' 6 8, mk_row ''w'' ''A'' 2 9]"
    by (simp add: ascii_strip_def ascii_lower_def ascii_lower_char_def ascii_space_def mk_row_def)
  have ne: "?rd \<noteq> []" unfolding rd by simp
  have p: "permitted_result True ?rd (stable_sort_values True ?rd)"
    by (rule sorts_by_delay_permitted [OF stable_sort_values_sorts])
  have val: "ai_prediction ascii_lower ascii_strip stable_sort_values '' a '' ?df
               = Inr (Shown (9, ''r'', 0))"
    unfolding ai_prediction_def prediction_route_df_def rd
    by (simp add: groupby_hour_mean_def rows_of_hour_def mean_delay_def iloc0_def
        stable_sort_values_def mk_row_def)
  from best_hour_minimises_mean_delay
        [where ai_route = "'' a ''" and str_lower = ascii_lower and str_strip = ascii_strip
           and df = "?df" and route_df = "?rd" and sort_values = stable_sort_values,
         OF sel refl ne p refl]
  have "\<exists>best_hour v d.
          ai_prediction ascii_lower ascii_strip stable_sort_values '' a '' ?df
            = Inr (Shown (best_hour, v, d))"
    by (elim exE conjE) (intro exI, assumption)
  with rd val show ?thesis by (intro conjI) assumption+
qed

text \<open>
  The claim has no such condition on the selection. When the table has rows whose route
  id is the empty string and that route is selected, the rows match, hour 9 has the
  least mean delay, and the block is skipped: no hour is shown.
\<close>

theorem best_hour_empty_selection_counterexample:
  "filter (\<lambda>r. ascii_strip (ascii_lower (route r)) = ascii_strip (ascii_lower []))
     unnamed_route_table = unnamed_route_table \<and>
   unnamed_route_table \<noteq> [] \<and>
   ai_prediction ascii_lower ascii_strip stable_sort_values [] unnamed_route_table = Inr Not_run"
  by (simp add: ai_prediction_def unnamed_route_table_def ascii_strip_def ascii_lower_def
      mk_row_def)

text \<open>
  C6, as the code has it. Under the same conditions, whenever the sort of line 178
  returns a frame it may return (the matching rows, by ascending delay), the vehicle
  shown is a matching row whose delay no matching row undercuts, shown with that delay.
  Which of several such rows it shows is the sort's choice.
\<close>

theorem best_vehicle_has_min_delay:
  assumes "ai_route \<noteq> []"
    and "route_df =
           filter (\<lambda>r. str_strip (str_lower (route r)) = str_strip (str_lower ai_route)) df"
    and "route_df \<noteq> []"
    and "permitted_result True route_df (sort_values True route_df)"
  shows "\<exists>best_hour r. r \<in> set route_df \<and>
           ai_prediction str_lower str_strip sort_values ai_route df =
             Inr (Shown (best_hour, vehicle_id r, delay_min r)) \<and>
           (\<forall>r' \<in> set route_df. delay_min r \<le> delay_min r')"
proof -
  obtain best_hour where bh: "idxmin (groupby_hour_mean route_df) = Inr best_hour"
    using idxmin_groupby [OF assms(3)] by blast
  obtain r rs where S: "sort_values True route_df = r # rs"
    using permitted_result_nonempty [OF assms(4,3)] by blast
  have rd: "prediction_route_df str_lower str_strip ai_route df = route_df"
    by (simp add: prediction_route_df_def assms(2))
  have "ai_prediction str_lower str_strip sort_values ai_route df =
          Inr (Shown (best_hour, vehicle_id r, delay_min r))"
    using assms(1,3) unfolding ai_prediction_def rd
    by (simp add: bh S iloc0_def)
  with ascending_head_is_min [OF assms(4) [unfolded S]]
  show ?thesis by blast
qed

theorem best_vehicle_has_min_delay_witness:
  "filter (\<lambda>r. ascii_strip (ascii_lower (route r)) = ascii_strip (ascii_lower ''red''))
     [mk_row ''p'' ''Red'' 4 8, mk_row ''q'' ''Red'' 1 9, mk_row ''r'' ''1'' 0 9,
      mk_row ''s'' ''Red'' 3 9]
   = [mk_row ''p'' ''Red'' 4 8, mk_row ''q'' ''Red'' 1 9, mk_row ''s'' ''Red'' 3 9] \<and>
   ai_prediction ascii_lower ascii_strip stable_sort_values ''red''
     [mk_row ''p'' ''Red'' 4 8, mk_row ''q'' ''Red'' 1 9, mk_row ''r'' ''1'' 0 9,
      mk_row ''s'' ''Red'' 3 9]
   = Inr (Shown (9, ''q'', 1))"
proof -
  let ?df = "[mk_row ''p'' ''Red'' 4 8, mk_row ''q'' ''Red'' 1 9, mk_row ''r'' ''1'' 0 9,
      mk_row ''s'' ''Red'' 3 9]"
  let ?rd = "filter (\<lambda>r. ascii_strip (ascii_lower (route r)) = ascii_strip (ascii_lower ''red'')) ?df"
  have sel: "''red'' \<noteq> []" by simp
  have rd: "?rd = [mk_row ''p'' ''Red'' 4 8, mk_row ''q'' ''Red'' 1 9, mk_row ''s'' ''Red'' 3 9]"
    by (simp add: ascii_strip_def ascii_lower_def ascii_lower_char_def ascii_space_def mk_row_def)
  have ne: "?rd \<noteq> []" unfolding rd by simp
  have p: "permitted_result True ?rd (stable_sort_values True ?rd)"
    by (rule sorts_by_delay_permitted [OF stable_sort_values_sorts])
  have val: "ai_prediction ascii_lower ascii_strip stable_sort_values ''red'' ?df
               = Inr (Shown (9, ''q'', 1))"
    unfolding ai_prediction_def prediction_route_df_def rd
    by (simp add: groupby_hour_mean_def rows_of_hour_def mean_delay_def iloc0_def
        stable_sort_values_def mk_row_def)
  from best_vehicle_has_min_delay
        [where ai_route = "''red''" and str_lower = ascii_lower and str_strip = ascii_strip
           and df = "?df" and route_df = "?rd" and sort_values = stable_sort_values,
         OF sel refl ne p]
  have "\<exists>best_hour (r :: vehicle_row).
          ai_prediction ascii_lower ascii_strip stable_sort_values ''red'' ?df
            = Inr (Shown (best_hour, vehicle_id r, delay_min r))"
    by (elim exE conjE) (intro exI, assumption)
  with rd val show ?thesis by (intro conjI) assumption+
qed

lemma tied_min_table_route:
  "filter (\<lambda>r. ascii_strip (ascii_lower (route r)) = ascii_strip (ascii_lower ''Red''))
     tied_min_table = tied_min_table"
  by (simp add: tied_min_table_def ascii_strip_def ascii_lower_def ascii_lower_char_def
      ascii_space_def mk_row_def)

text \<open>
  Neither the rule "the first such row in fetch order wins" nor the claim for every
  selection follows. For the table with the delays 4, 4, 0, 0 both frames with v03
  ahead of v02 are frames the ascending sort may return, and with either the vehicle
  shown is v03, although v02 comes first among the least delayed. And when the route
  with the empty id is selected, its rows match and no vehicle is shown.
\<close>

theorem best_vehicle_tie_counterexample:
  "permitted_result True tied_min_table (returning tied_min_sorted True tied_min_table) \<and>
   permitted_result True tied_min_table (returning tied_min_sorted' True tied_min_table) \<and>
   ai_prediction ascii_lower ascii_strip (returning tied_min_sorted) ''Red'' tied_min_table
     = Inr (Shown (8, ''v03'', 0)) \<and>
   ai_prediction ascii_lower ascii_strip (returning tied_min_sorted') ''Red'' tied_min_table
     = Inr (Shown (8, ''v03'', 0)) \<and>
   map_option vehicle_id (first_min_delay (filter
     (\<lambda>r. ascii_strip (ascii_lower (route r)) = ascii_strip (ascii_lower ''Red''))
     tied_min_table)) = Some ''v02'' \<and>
   filter (\<lambda>r. ascii_strip (ascii_lower (route r)) = ascii_strip (ascii_lower []))
     [mk_row ''v00'' [] 2 8] = [mk_row ''v00'' [] 2 8] \<and>
   ai_prediction ascii_lower ascii_strip (returning [mk_row ''v00'' [] 2 8]) []
     [mk_row ''v00'' [] 2 8] = Inr Not_run"
proof (intro conjI)
  show "permitted_result True tied_min_table (returning tied_min_sorted True tied_min_table)"
    by (simp add: permitted_result_def delay_ordered_def returning_def tied_min_table_def
        tied_min_sorted_def mk_row_def)
  show "permitted_result True tied_min_table (returning tied_min_sorted' True tied_min_table)"
    by (simp add: permitted_result_def delay_ordered_def returning_def tied_min_table_def
        tied_min_sorted'_def mk_row_def)
  have g: "groupby_hour_mean tied_min_table = [(8, 2)]"
    by (simp add: groupby_hour_mean_def rows_of_hour_def mean_delay_def tied_min_table_def
        mk_row_def)
  have ne: "tied_min_table \<noteq> []" by (simp add: tied_min_table_def)
  show "ai_prediction ascii_lower ascii_strip (returning tied_min_sorted) ''Red'' tied_min_table
     = Inr (Shown (8, ''v03'', 0))"
    unfolding ai_prediction_def prediction_route_df_def tied_min_table_route
    by (simp add: g ne returning_def iloc0_def tied_min_sorted_def mk_row_def)
  show "ai_prediction ascii_lower ascii_strip (returning tied_min_sorted') ''Red'' tied_min_table
     = Inr (Shown (8, ''v03'', 0))"
    unfolding ai_prediction_def prediction_route_df_def tied_min_table_route
    by (simp add: g ne returning_def iloc0_def tied_min_sorted'_def mk_row_def)
  show "map_option vehicle_id (first_min_delay (filter
     (\<lambda>r. ascii_strip (ascii_lower (route r)) = ascii_strip (ascii_lower ''Red''))
     tied_min_table)) = Some ''v02''"
    unfolding tied_min_table_route
    by (simp add: first_min_delay_def tied_min_table_def mk_row_def)
  show "filter (\<lambda>r. ascii_strip (ascii_lower (route r)) = ascii_strip (ascii_lower []))
     [mk_row ''v00'' [] 2 8] = [mk_row ''v00'' [] 2 8]"
    by (simp add: ascii_strip_def ascii_lower_def mk_row_def)
  show "ai_prediction ascii_lower ascii_strip (returning [mk_row ''v00'' [] 2 8]) []
     [mk_row ''v00'' [] 2 8] = Inr Not_run"
    by (simp add: ai_prediction_def)
qed

section \<open>The first options of the select boxes\<close>

text \<open>
  C10. The strings "None" (vehicle, route) and "All" (category) mean "no filter" also
  when a row carries them as data. If a row's vehicle id is the string "None", choosing
  that value puts no constraint on the vehicle: the other two selectors alone decide,
  and with those inactive the whole table is returned. As soon as the table holds a row
  with another vehicle id, no choice of the vehicle selector returns just the rows whose
  id is "None". The same holds for the route, and "All" never constrains the category.
\<close>

theorem sentinel_value_is_no_filter:
  assumes "r \<in> set df" and "other \<in> set df"
  shows "(vehicle_id r = ''None'' \<longrightarrow>
            filtered_df (vehicle_id r) search_route delay_filter df =
              filter (\<lambda>x. (search_route \<noteq> ''None'' \<longrightarrow> route x = search_route) \<and>
                          (delay_filter \<noteq> ''All'' \<longrightarrow> delay_category x = delay_filter)) df \<and>
            filtered_df (vehicle_id r) ''None'' ''All'' df = df \<and>
            (vehicle_id other \<noteq> ''None'' \<longrightarrow>
               (\<forall>sv. filtered_df sv ''None'' ''All'' df \<noteq> filter (\<lambda>x. vehicle_id x = ''None'') df)))
       \<and> (route r = ''None'' \<longrightarrow>
            filtered_df search_vehicle (route r) delay_filter df =
              filter (\<lambda>x. (search_vehicle \<noteq> ''None'' \<longrightarrow> vehicle_id x = search_vehicle) \<and>
                          (delay_filter \<noteq> ''All'' \<longrightarrow> delay_category x = delay_filter)) df \<and>
            filtered_df ''None'' (route r) ''All'' df = df \<and>
            (route other \<noteq> ''None'' \<longrightarrow>
               (\<forall>sr. filtered_df ''None'' sr ''All'' df \<noteq> filter (\<lambda>x. route x = ''None'') df)))
       \<and> filtered_df search_vehicle search_route ''All'' df =
            filter (\<lambda>x. (search_vehicle \<noteq> ''None'' \<longrightarrow> vehicle_id x = search_vehicle) \<and>
                        (search_route \<noteq> ''None'' \<longrightarrow> route x = search_route)) df"
proof (intro conjI impI allI)
  assume v: "vehicle_id r = ''None''"
  show "filtered_df (vehicle_id r) search_route delay_filter df =
              filter (\<lambda>x. (search_route \<noteq> ''None'' \<longrightarrow> route x = search_route) \<and>
                          (delay_filter \<noteq> ''All'' \<longrightarrow> delay_category x = delay_filter)) df"
    unfolding v filtered_df_filter by (rule filter_cong) auto
  show "filtered_df (vehicle_id r) ''None'' ''All'' df = df"
    unfolding v by (simp add: filtered_df_def)
  fix sv
  assume o: "vehicle_id other \<noteq> ''None''"
  show "filtered_df sv ''None'' ''All'' df \<noteq> filter (\<lambda>x. vehicle_id x = ''None'') df"
  proof (cases "sv = ''None''")
    case True
    have "other \<in> set (filtered_df sv ''None'' ''All'' df)"
      using assms(2) True by (simp add: filtered_df_def)
    moreover have "other \<notin> set (filter (\<lambda>x. vehicle_id x = ''None'') df)"
      using o by simp
    ultimately show ?thesis by metis
  next
    case False
    have "r \<notin> set (filtered_df sv ''None'' ''All'' df)"
      using v False by (simp add: filtered_df_def)
    moreover have "r \<in> set (filter (\<lambda>x. vehicle_id x = ''None'') df)"
      using v assms(1) by simp
    ultimately show ?thesis by metis
  qed
next
  assume v: "route r = ''None''"
  show "filtered_df search_vehicle (route r) delay_filter df =
              filter (\<lambda>x. (search_vehicle \<noteq> ''None'' \<longrightarrow> vehicle_id x = search_vehicle) \<and>
                          (delay_filter \<noteq> ''All'' \<longrightarrow> delay_category x = delay_filter)) df"
    unfolding v filtered_df_filter by (rule filter_cong) auto
  show "filtered_df ''None'' (route r) ''All'' df = df"
    unfolding v by (simp add: filtered_df_def)
  fix sr
  assume o: "route other \<noteq> ''None''"
  show "filtered_df ''None'' sr ''All'' df \<noteq> filter (\<lambda>x. route x = ''None'') df"
  proof (cases "sr = ''None''")
    case True
    have "other \<in> set (filtered_df ''None'' sr ''All'' df)"
      using assms(2) True by (simp add: filtered_df_def)
    moreover have "other \<notin> set (filter (\<lambda>x. route x = ''None'') df)"
      using o by simp
    ultimately show ?thesis by metis
  next
    case False
    have "r \<notin> set (filtered_df ''None'' sr ''All'' df)"
      using v False by (simp add: filtered_df_def)
    moreover have "r \<in> set (filter (\<lambda>x. route x = ''None'') df)"
      using v assms(1) by simp
    ultimately show ?thesis by metis
  qed
next
  show "filtered_df search_vehicle search_route ''All'' df =
            filter (\<lambda>x. (search_vehicle \<noteq> ''None'' \<longrightarrow> vehicle_id x = search_vehicle) \<and>
                        (search_route \<noteq> ''None'' \<longrightarrow> route x = search_route)) df"
    unfolding filtered_df_filter by (rule filter_cong) auto
qed

theorem sentinel_value_is_no_filter_witness:
  "filtered_df ''None'' ''None'' ''All''
     [mk_row ''None'' ''Red'' 5 8, mk_row ''y1731'' ''None'' 0 9]
   = [mk_row ''None'' ''Red'' 5 8, mk_row ''y1731'' ''None'' 0 9] \<and>
   (\<forall>sv. filtered_df sv ''None'' ''All''
            [mk_row ''None'' ''Red'' 5 8, mk_row ''y1731'' ''None'' 0 9]
          \<noteq> [mk_row ''None'' ''Red'' 5 8]) \<and>
   (\<forall>sr. filtered_df ''None'' sr ''All''
            [mk_row ''None'' ''Red'' 5 8, mk_row ''y1731'' ''None'' 0 9]
          \<noteq> [mk_row ''y1731'' ''None'' 0 9])"
  using sentinel_value_is_no_filter [of "mk_row ''None'' ''Red'' 5 8"
      "[mk_row ''None'' ''Red'' 5 8, mk_row ''y1731'' ''None'' 0 9]"
      "mk_row ''y1731'' ''None'' 0 9" "''None''" "''All''" "''None''"]
    sentinel_value_is_no_filter [of "mk_row ''y1731'' ''None'' 0 9"
      "[mk_row ''None'' ''Red'' 5 8, mk_row ''y1731'' ''None'' 0 9]"
      "mk_row ''None'' ''Red'' 5 8" "''None''" "''All''" "''None''"]
  by (simp add: mk_row_def)

end
